theory Spec2Isabelle
  imports
    Complex_Main
    "HOL-Library.Char_ord"
    "HOL-Library.List_Lexorder"
    "HOL-Library.Option_ord"
    "HOL-Library.Product_Lexorder"
    "HOL-Library.Multiset"
    "HOL-Library.Word"
begin

section \<open>Admin routes of the pharmacos server (routes/admin.js)\<close>

text \<open>
  The handlers of \<^verbatim>\<open>routes/admin.js\<close> are embedded as functions over an explicit store.
  A collection is the list of its documents in natural (insertion) order. The query
  operators the handlers call (find, sort, skip, limit, countDocuments and the aggregation
  stages match, lookup, unwind, group, sort, limit) are list functions. Quantities are
  integers. Amounts are binary64 numbers, held as the reals they denote; their sums and
  products are the store's.
\<close>

subsection \<open>Documents and store\<close>

type_synonym objectId = string

text \<open>A date is an instant: milliseconds since 1970-01-01T00:00:00Z, as a BSON date holds it.\<close>
type_synonym date = int

text \<open>
  The Customer schema is not part of the sources at hand. The routes read \<open>_id\<close>, \<open>name\<close>,
  \<open>email\<close> and write \<open>status\<close>; any further profile field is kept as a key/value pair.
\<close>
record customer =
  c_id :: objectId
  c_name :: string
  c_email :: string
  c_status :: string
  c_profile :: "(string \<times> string) list"

record order =
  o_id :: objectId
  customerId :: objectId
  staffId :: objectId
  orderDate :: date
  totalAmount :: real
  o_status :: string

record orderDetail =
  orderId :: objectId
  productId :: objectId
  quantity :: int
  unitPrice :: real

record brand =
  b_id :: objectId
  b_name :: string

text \<open>models/Product.js\<close>
record product =
  p_id :: objectId
  p_name :: string
  p_function :: string
  skinGroup :: string
  ageGroup :: "string option"
  genderTarget :: "string option"
  brandId :: objectId
  categoryId :: objectId
  imageUrl :: "string option"
  stockQuantity :: int
  aiFeatures :: "(string \<times> string) list"

record store =
  customers :: "customer list"
  orders :: "order list"
  orderdetails :: "orderDetail list"
  products :: "product list"
  brands :: "brand list"

text \<open>The responses a handler sends: \<open>res.json\<close> (200) or \<open>res.status(n).json\<close>.\<close>
datatype 'a response = Ok200 'a | BadRequest400 | NotFound404 | InternalError500

fun http_status :: "'a response \<Rightarrow> nat" where
  "http_status (Ok200 _) = 200"
| "http_status BadRequest400 = 400"
| "http_status NotFound404 = 404"
| "http_status InternalError500 = 500"

subsection \<open>What the handlers leave to the store\<close>

datatype jsnum = Num int | NaN

text \<open>
  \<open>$regex\<close> with \<open>$options: "i"\<close> is evaluated by the store's regular-expression engine:
  given the pattern it either rejects it (\<open>None\<close>, the query fails) or yields the
  case-insensitive, unanchored search predicate on subject strings.
\<close>
type_synonym regex_engine = "string \<Rightarrow> (string \<Rightarrow> bool) option"

text \<open>
  The handlers do not determine what the store does in these places; each is a field of
  the engine, and a statement that holds for every engine holds for the store at hand.
  \<^item> \<open>regex\<close>: the regular-expression engine.
  \<^item> \<open>sort_path\<close>: whether the store accepts a non-empty field path as a sort key.
  \<^item> \<open>odd_skip\<close>: what \<open>skip\<close> does with an argument that is \<open>NaN\<close> or negative: it fails
    the query (\<open>None\<close>) or skips that many documents.
  \<^item> \<open>sum_of\<close>: \<open>$sum\<close> over the amounts of a group, in the order the group receives them.
  \<^item> \<open>mul_of\<close>: \<open>$multiply\<close> of two numbers.
\<close>
record engine =
  regex :: regex_engine
  sort_path :: "string \<Rightarrow> bool"
  odd_skip :: "jsnum \<Rightarrow> nat option"
  sum_of :: "real list \<Rightarrow> real"
  mul_of :: "real \<Rightarrow> real \<Rightarrow> real"

subsection \<open>Binary64 arithmetic\<close>

text \<open>
  The numbers of the handlers and of the store are binary64 numbers: the result of an
  operation is rounded to nearest, ties to even. \<open>binade x\<close> is the exponent \<open>k\<close> with
  \<open>2^k \<le> |x| < 2^(k+1)\<close>; a binary64 number of that binade is a multiple of \<open>2^(k-52)\<close>.
  This is the rounding of results in the normal range, between \<open>2^-1022\<close> and the largest
  finite binary64 number.
\<close>
definition pow2 :: "int \<Rightarrow> real" where
  "pow2 e = (if 0 \<le> e then 2 ^ nat e else 1 / 2 ^ nat (- e))"

definition binade :: "real \<Rightarrow> int" where
  "binade x = \<lfloor>log 2 \<bar>x\<bar>\<rfloor>"

definition half_even :: "real \<Rightarrow> int" where
  "half_even y =
     (if y - of_int \<lfloor>y\<rfloor> < 1 / 2 then \<lfloor>y\<rfloor>
      else if 1 / 2 < y - of_int \<lfloor>y\<rfloor> then \<lfloor>y\<rfloor> + 1
      else if even \<lfloor>y\<rfloor> then \<lfloor>y\<rfloor>
      else \<lfloor>y\<rfloor> + 1)"

definition round64 :: "real \<Rightarrow> real" where
  "round64 x =
     (if x = 0 then 0
      else of_int (half_even (x / pow2 (binade x - 52))) * pow2 (binade x - 52))"

text \<open>
  The arithmetic of a store that adds the values of a group one by one, in the order in
  which the group receives them, and rounds each sum and each product.
\<close>
definition binary64_sum :: "real list \<Rightarrow> real" where
  "binary64_sum xs = foldl (\<lambda>a x. round64 (a + x)) 0 xs"

definition binary64_mul :: "real \<Rightarrow> real \<Rightarrow> real" where
  "binary64_mul a b = round64 (a * b)"

subsection \<open>GET /customers\<close>

text \<open>
  A numeric query parameter as the handler meets it.
  \<^item> \<open>NotSupplied\<close>: \<open>undefined\<close>, so the destructuring default applies.
  \<^item> \<open>Numeric n\<close>: the decimal literal of a natural number below \<open>2^26\<close>. Numeric coercion
    and \<open>parseInt\<close> both read it as \<open>n\<close>, and every difference and product the handler
    forms of two such numbers is below \<open>2^53\<close>, where the arithmetic of doubles is exact.
  \<^item> \<open>NonNumeric k\<close>: a string whose numeric coercion is \<open>NaN\<close>; \<open>k\<close> is what \<open>parseInt\<close>
    reads from it, \<open>None\<close> when that is not a finite number.
  Other strings (a sign, a fraction, an exponent, a number from \<open>2^26\<close> on) are not
  among the requests considered.
\<close>
datatype num_param = NotSupplied | Numeric "26 word" | NonNumeric "int option"

fun param_or :: "int \<Rightarrow> num_param \<Rightarrow> jsnum" where
  "param_or d NotSupplied = Num d"
| "param_or d (Numeric n) = Num (uint n)"
| "param_or d (NonNumeric k) = NaN"

text \<open>\<open>parseInt(page)\<close>, with \<open>page = 1\<close> when it is not supplied.\<close>
fun parse_int :: "num_param \<Rightarrow> int option" where
  "parse_int NotSupplied = Some 1"
| "parse_int (Numeric n) = Some (uint n)"
| "parse_int (NonNumeric k) = k"

fun js_sub :: "jsnum \<Rightarrow> jsnum \<Rightarrow> jsnum" where
  "js_sub (Num a) (Num b) = Num (a - b)"
| "js_sub _ _ = NaN"

fun js_mul :: "jsnum \<Rightarrow> jsnum \<Rightarrow> jsnum" where
  "js_mul (Num a) (Num b) = Num (a * b)"
| "js_mul _ _ = NaN"

text \<open>
  The query string of a request. Each parameter occurs at most once, so that its value,
  when it is there, is a string.
\<close>
record customer_query =
  q_search :: "string option"
  q_sortBy :: "string option"
  q_page :: num_param
  q_limit :: num_param

text \<open>\<open>if (search) filter = {$or: [{name: ...}, {email: ...}]}\<close>; the empty string is falsy.\<close>
definition customer_filter :: "regex_engine \<Rightarrow> string option \<Rightarrow> (customer \<Rightarrow> bool) option" where
  "customer_filter rx search =
     (case search of
        None \<Rightarrow> Some (\<lambda>c. True)
      | Some s \<Rightarrow>
          if s = [] then Some (\<lambda>c. True)
          else (case rx s of
                  None \<Rightarrow> None
                | Some m \<Rightarrow> Some (\<lambda>c. m (c_name c) \<or> m (c_email c))))"

text \<open>\<open>String.prototype.split\<close> with a one-character separator.\<close>
fun split_on :: "char \<Rightarrow> string \<Rightarrow> string list" where
  "split_on sep [] = [[]]"
| "split_on sep (c # cs) =
     (if c = sep then [] # split_on sep cs
      else (case split_on sep cs of
              [] \<Rightarrow> [[c]]
            | p # ps \<Rightarrow> (c # p) # ps))"

datatype direction = Asc | Desc

text \<open>
  \<open>if (sortBy) { const [field, order] = sortBy.split(":"); sort[field] = order === "desc" ? -1 : 1 }\<close>
\<close>
definition sort_spec :: "string option \<Rightarrow> (string \<times> direction) option" where
  "sort_spec sortBy =
     (case sortBy of
        None \<Rightarrow> None
      | Some s \<Rightarrow>
          if s = [] then None
          else (case split_on CHR '':'' s of
                  [] \<Rightarrow> None
                | [field] \<Rightarrow> Some (field, Asc)
                | field # ord # _ \<Rightarrow> Some (field, if ord = ''desc'' then Desc else Asc)))"

text \<open>
  \<open>sort({})\<close> is no sort. The store refuses the empty field path; whether it accepts
  another path is the engine's.
\<close>
definition sort_accepted :: "engine \<Rightarrow> (string \<times> direction) option \<Rightarrow> bool" where
  "sort_accepted eng spec =
     (case spec of
        None \<Rightarrow> True
      | Some (field, d) \<Rightarrow> field \<noteq> [] \<and> sort_path eng field)"

text \<open>The value of a field of a customer document; \<open>None\<close> when the document has no such field.\<close>
definition customer_field :: "string \<Rightarrow> customer \<Rightarrow> string option" where
  "customer_field f c =
     (if f = ''_id'' then Some (c_id c)
      else if f = ''name'' then Some (c_name c)
      else if f = ''email'' then Some (c_email c)
      else if f = ''status'' then Some (c_status c)
      else map_of (c_profile c) f)"

text \<open>
  A one-key sort. Missing values order before strings, strings by their bytes. Documents
  with equal keys keep their relative order.
\<close>
fun sort_dir :: "direction \<Rightarrow> ('a \<Rightarrow> 'k::linorder) \<Rightarrow> 'a list \<Rightarrow> 'a list" where
  "sort_dir Asc key xs = sort_key key xs"
| "sort_dir Desc key xs = rev (sort_key key (rev xs))"

fun sort_customers :: "(string \<times> direction) option \<Rightarrow> customer list \<Rightarrow> customer list" where
  "sort_customers None xs = xs"
| "sort_customers (Some (field, d)) xs = sort_dir d (customer_field field) xs"

text \<open>\<open>skip(n)\<close> with a number that is not negative skips that many documents.\<close>
definition skip_count :: "engine \<Rightarrow> jsnum \<Rightarrow> nat option" where
  "skip_count eng v =
     (case v of
        Num s \<Rightarrow> if 0 \<le> s then Some (nat s) else odd_skip eng v
      | NaN \<Rightarrow> odd_skip eng v)"

text \<open>\<open>limit(n)\<close> for a number that is not negative: zero is no limit.\<close>
definition limit_docs :: "int \<Rightarrow> 'a list \<Rightarrow> 'a list" where
  "limit_docs l xs = (if l = 0 then xs else take (nat l) xs)"

text \<open>
  \<open>Math.ceil(total / limit)\<close>, the quotient rounded to binary64, for a count below \<open>2^53\<close>;
  a division by zero is not a finite number and is sent as \<open>null\<close>.
\<close>
definition total_pages :: "nat \<Rightarrow> int \<Rightarrow> int option" where
  "total_pages n l = (if l = 0 then None else Some \<lceil>round64 (real n / real_of_int l)\<rceil>)"

record customer_list =
  cl_customers :: "customer list"
  totalPages :: "int option"
  currentPage :: "int option"
  cl_total :: nat

text \<open>
  The handler. A failure of the query reaches the one \<open>catch\<close>, which answers 500: a
  pattern the store rejects, a sort the store refuses, a limit that the query builder
  cannot cast to a number, a skip the store refuses.
\<close>
definition get_customers :: "engine \<Rightarrow> store \<Rightarrow> customer_query \<Rightarrow> customer_list response" where
  "get_customers eng st q =
     (case customer_filter (regex eng) (q_search q) of
        None \<Rightarrow> InternalError500
      | Some flt \<Rightarrow>
          if \<not> sort_accepted eng (sort_spec (q_sortBy q)) then InternalError500
          else
            (case param_or 10 (q_limit q) of
               NaN \<Rightarrow> InternalError500
             | Num l \<Rightarrow>
                 (case skip_count eng
                         (js_mul (js_sub (param_or 1 (q_page q)) (Num 1)) (param_or 10 (q_limit q))) of
                    None \<Rightarrow> InternalError500
                  | Some n \<Rightarrow>
                      Ok200 \<lparr>
                        cl_customers =
                          limit_docs l (drop n
                            (sort_customers (sort_spec (q_sortBy q)) (filter flt (customers st)))),
                        totalPages = total_pages (length (filter flt (customers st))) l,
                        currentPage = parse_int (q_page q),
                        cl_total = length (filter flt (customers st)) \<rparr>)))"


subsection \<open>A regular-expression engine for literal characters and the dot\<close>

text \<open>
  The engine of a store whose pattern language has literal characters and \<open>.\<close> only: it
  rejects a pattern with any other metacharacter. On the patterns it accepts, and on
  ASCII text, it searches as the case-insensitive engine of the store at hand does:
  letters are compared without regard to case, \<open>.\<close> stands for any character but a line
  feed.
\<close>
definition lower_char :: "char \<Rightarrow> char" where
  "lower_char c =
     (case map_of (zip ''ABCDEFGHIJKLMNOPQRSTUVWXYZ'' ''abcdefghijklmnopqrstuvwxyz'') c of
        None \<Rightarrow> c
      | Some d \<Rightarrow> d)"

datatype rx_atom = AnyChar | Literal char

fun atom_matches :: "rx_atom \<Rightarrow> char \<Rightarrow> bool" where
  "atom_matches AnyChar c = (c \<noteq> CHR 0x0A)"
| "atom_matches (Literal a) c = (lower_char a = lower_char c)"

fun matches_here :: "rx_atom list \<Rightarrow> string \<Rightarrow> bool" where
  "matches_here [] cs = True"
| "matches_here (a # as) [] = False"
| "matches_here (a # as) (c # cs) = (atom_matches a c \<and> matches_here as cs)"

fun matches_anywhere :: "rx_atom list \<Rightarrow> string \<Rightarrow> bool" where
  "matches_anywhere p [] = matches_here p []"
| "matches_anywhere p (c # cs) = (matches_here p (c # cs) \<or> matches_anywhere p cs)"

text \<open>The characters with a meaning of their own in a pattern: \<open>\ ^ $ . | ? * + ( ) [ ] { }\<close>.\<close>
definition regex_metachars :: "char list" where
  "regex_metachars = CHR 0x5C # ''^$.|?*+()[]{}''"

definition rx_atom_of :: "char \<Rightarrow> rx_atom" where
  "rx_atom_of c = (if c = CHR ''.'' then AnyChar else Literal c)"

definition dot_regex :: regex_engine where
  "dot_regex pat =
     (if list_ex (\<lambda>c. c \<in> set regex_metachars \<and> c \<noteq> CHR ''.'') pat then None
      else Some (matches_anywhere (map rx_atom_of pat)))"


subsection \<open>Aggregation stages\<close>

text \<open>
  \<open>$year\<close> and \<open>$month\<close> of a date, in UTC. The day number since the epoch is converted
  to the proleptic Gregorian calendar, counting in eras of 400 years (146097 days) that
  begin on 1 March.
\<close>
definition era :: "int \<Rightarrow> int" where
  "era z = (z + 719468) div 146097"

definition day_of_era :: "int \<Rightarrow> int" where
  "day_of_era z = (z + 719468) mod 146097"

definition year_of_era :: "int \<Rightarrow> int" where
  "year_of_era doe = (doe - doe div 1460 + doe div 36524 - doe div 146096) div 365"

definition day_of_year :: "int \<Rightarrow> int" where
  "day_of_year doe =
     doe - (365 * year_of_era doe + year_of_era doe div 4 - year_of_era doe div 100)"

text \<open>The month counted from March = 0.\<close>
definition month_index :: "int \<Rightarrow> int" where
  "month_index z = (5 * day_of_year (day_of_era z) + 2) div 153"

definition civil_month :: "int \<Rightarrow> int" where
  "civil_month z = (if month_index z < 10 then month_index z + 3 else month_index z - 9)"

definition civil_year :: "int \<Rightarrow> int" where
  "civil_year z =
     year_of_era (day_of_era z) + era z * 400 + (if civil_month z \<le> 2 then 1 else 0)"

definition year_of :: "date \<Rightarrow> int" where
  "year_of t = civil_year (t div 86400000)"

definition month_of :: "date \<Rightarrow> int" where
  "month_of t = civil_month (t div 86400000)"

text \<open>\<open>$group\<close>: the distinct keys, in the order of their first document, each with its documents.\<close>
fun group_keys :: "('a \<Rightarrow> 'k) \<Rightarrow> 'a list \<Rightarrow> 'k list" where
  "group_keys key [] = []"
| "group_keys key (x # xs) = key x # filter (\<lambda>k. k \<noteq> key x) (group_keys key xs)"

definition group_stage :: "('a \<Rightarrow> 'k) \<Rightarrow> 'a list \<Rightarrow> ('k \<times> 'a list) list" where
  "group_stage key xs = map (\<lambda>k. (k, filter (\<lambda>x. key x = k) xs)) (group_keys key xs)"

text \<open>\<open>$lookup\<close> from orderdetails (localField \<open>_id\<close>, foreignField \<open>orderId\<close>) and \<open>$unwind\<close>.\<close>
definition lookup_items :: "store \<Rightarrow> order \<Rightarrow> orderDetail list" where
  "lookup_items st ord = filter (\<lambda>d. orderId d = o_id ord) (orderdetails st)"

definition unwind_items :: "store \<Rightarrow> order list \<Rightarrow> (order \<times> orderDetail) list" where
  "unwind_items st os = concat (map (\<lambda>ord. map (\<lambda>d. (ord, d)) (lookup_items st ord)) os)"

subsection \<open>GET /analytics/sales\<close>

text \<open>
  A date query parameter: not supplied, the empty string (both falsy), or a string that
  \<open>new Date\<close> reads as the given instant.
\<close>
datatype date_param = NotGiven | EmptyString | DateString date

record sales_query =
  startDate :: date_param
  endDate :: date_param

record match_doc =
  m_status :: string
  m_orderDate :: "(date \<times> date) option"

text \<open>
  \<open>const matchStage = {status: "completed"};
  if (startDate && endDate) matchStage.orderDate = {$gte: new Date(startDate), $lte: new Date(endDate)}\<close>
\<close>
definition matchStage :: "sales_query \<Rightarrow> match_doc" where
  "matchStage q =
     (case (startDate q, endDate q) of
        (DateString s, DateString e) \<Rightarrow> \<lparr>m_status = ''completed'', m_orderDate = Some (s, e)\<rparr>
      | _ \<Rightarrow> \<lparr>m_status = ''completed'', m_orderDate = None\<rparr>)"

definition match_order :: "match_doc \<Rightarrow> order \<Rightarrow> bool" where
  "match_order m ord =
     (o_status ord = m_status m \<and>
      (case m_orderDate m of
         None \<Rightarrow> True
       | Some (s, e) \<Rightarrow> s \<le> orderDate ord \<and> orderDate ord \<le> e))"

record sales_row =
  sr_id :: "int \<times> int"
  totalSales :: real
  orderCount :: nat

definition year_month :: "order \<Rightarrow> int \<times> int" where
  "year_month ord = (year_of (orderDate ord), month_of (orderDate ord))"

text \<open>The \<open>$group\<close> stage of the sales-by-month pipeline.\<close>
definition sales_groups :: "engine \<Rightarrow> order list \<Rightarrow> sales_row list" where
  "sales_groups eng os =
     map (\<lambda>(k, g). \<lparr>sr_id = k, totalSales = sum_of eng (map totalAmount g), orderCount = length g\<rparr>)
       (group_stage year_month os)"

text \<open>match, group, \<open>$sort: {"_id.year": 1, "_id.month": 1}\<close>.\<close>
definition salesAnalytics :: "engine \<Rightarrow> store \<Rightarrow> sales_query \<Rightarrow> sales_row list" where
  "salesAnalytics eng st q =
     sort_key sr_id (sales_groups eng (filter (match_order (matchStage q)) (orders st)))"

record top_row =
  tr_id :: objectId
  totalQuantity :: int
  totalRevenue :: real

record top_product = top_row +
  tp_product :: product

text \<open>\<open>$multiply: ["$items.quantity", "$items.unitPrice"]\<close>\<close>
definition line_revenue :: "engine \<Rightarrow> orderDetail \<Rightarrow> real" where
  "line_revenue eng d = mul_of eng (real_of_int (quantity d)) (unitPrice d)"

text \<open>
  The \<open>$group\<close> stage of the top-products pipeline, on the unwound line items. Quantities
  are whole numbers, and their sums are exact as long as they stay below \<open>2^53\<close>; the
  prices and the revenues are binary64 numbers, multiplied and added by the store.
\<close>
definition product_groups :: "engine \<Rightarrow> (order \<times> orderDetail) list \<Rightarrow> top_row list" where
  "product_groups eng items =
     map (\<lambda>(k, g). \<lparr>tr_id = k,
             totalQuantity = sum_list (map (\<lambda>(ord, d). quantity d) g),
             totalRevenue = sum_of eng (map (\<lambda>(ord, d). line_revenue eng d) g)\<rparr>)
       (group_stage (\<lambda>(ord, d). productId d) items)"

text \<open>The pipeline up to \<open>$limit\<close>: match, lookup, unwind, group, sort, limit.\<close>
definition top_groups :: "engine \<Rightarrow> store \<Rightarrow> sales_query \<Rightarrow> top_row list" where
  "top_groups eng st q =
     take 10
       (sort_dir Desc totalQuantity
          (product_groups eng
             (unwind_items st (filter (match_order (matchStage q)) (orders st)))))"

text \<open>\<open>$lookup\<close> from products on \<open>_id\<close> and \<open>$unwind: "$product"\<close>.\<close>
definition join_product :: "store \<Rightarrow> top_row \<Rightarrow> top_product list" where
  "join_product st r =
     map (\<lambda>p. \<lparr>tr_id = tr_id r, totalQuantity = totalQuantity r,
                totalRevenue = totalRevenue r, tp_product = p\<rparr>)
       (filter (\<lambda>p. p_id p = tr_id r) (products st))"

definition topProducts :: "engine \<Rightarrow> store \<Rightarrow> sales_query \<Rightarrow> top_product list" where
  "topProducts eng st q = concat (map (join_product st) (top_groups eng st q))"

record sales_response =
  salesByMonth :: "sales_row list"
  topSellingProducts :: "top_product list"

definition get_analytics_sales :: "engine \<Rightarrow> store \<Rightarrow> sales_query \<Rightarrow> sales_response response" where
  "get_analytics_sales eng st q =
     Ok200 \<lparr>salesByMonth = salesAnalytics eng st q, topSellingProducts = topProducts eng st q\<rparr>"

text \<open>Every document of a collection has its own \<open>_id\<close>.\<close>
definition unique_ids :: "store \<Rightarrow> bool" where
  "unique_ids st = (distinct (map o_id (orders st)) \<and> distinct (map p_id (products st)))"


text \<open>The line items of the orders that pass the match stage of a sales request.\<close>
definition matching_items :: "store \<Rightarrow> sales_query \<Rightarrow> orderDetail list" where
  "matching_items st q =
     filter (\<lambda>d. \<exists>ord \<in> set (orders st). match_order (matchStage q) ord \<and> orderId d = o_id ord)
       (orderdetails st)"

subsection \<open>GET /analytics/products\<close>

text \<open>
  \<open>thirtyDaysAgo.setDate(thirtyDaysAgo.getDate() - 30)\<close>, for a server clock whose offset
  from UTC does not change within the window: thirty days of 86400000 ms.
\<close>
definition thirtyDaysAgo :: "date \<Rightarrow> date" where
  "thirtyDaysAgo now = now - 30 * 86400000"

definition recent_completed :: "date \<Rightarrow> order \<Rightarrow> bool" where
  "recent_completed now ord = (thirtyDaysAgo now \<le> orderDate ord \<and> o_status ord = ''completed'')"

record product_sales_row =
  ps_id :: objectId
  ps_totalSales :: int

definition productSales :: "store \<Rightarrow> date \<Rightarrow> product_sales_row list" where
  "productSales st now =
     map (\<lambda>(k, g). \<lparr>ps_id = k, ps_totalSales = sum_list (map (\<lambda>(ord, d). quantity d) g)\<rparr>)
       (group_stage (\<lambda>(ord, d). productId d)
          (unwind_items st (filter (recent_completed now) (orders st))))"

text \<open>\<open>populate("brandId", "name")\<close>: the product with the brand its \<open>brandId\<close> refers to, if any.\<close>
definition populate_brand :: "store \<Rightarrow> product \<Rightarrow> product \<times> brand option" where
  "populate_brand st p = (p, find (\<lambda>b. b_id b = brandId p) (brands st))"

definition lowStockProducts :: "store \<Rightarrow> (product \<times> brand option) list" where
  "lowStockProducts st = map (populate_brand st) (filter (\<lambda>p. stockQuantity p < 10) (products st))"

definition noSalesProducts :: "store \<Rightarrow> date \<Rightarrow> (product \<times> brand option) list" where
  "noSalesProducts st now =
     (let soldProductIds = map ps_id (productSales st now)
      in map (populate_brand st) (filter (\<lambda>p. p_id p \<notin> set soldProductIds) (products st)))"

record products_response =
  pr_lowStockProducts :: "(product \<times> brand option) list"
  pr_noSalesProducts :: "(product \<times> brand option) list"
  pr_productSales :: "product_sales_row list"

definition get_analytics_products :: "store \<Rightarrow> date \<Rightarrow> products_response response" where
  "get_analytics_products st now =
     Ok200 \<lparr>pr_lowStockProducts = lowStockProducts st,
            pr_noSalesProducts = noSalesProducts st now,
            pr_productSales = productSales st now\<rparr>"

text \<open>The line items of the completed orders of the trailing thirty days.\<close>
definition recent_items :: "store \<Rightarrow> date \<Rightarrow> orderDetail list" where
  "recent_items st now =
     filter (\<lambda>d. \<exists>ord \<in> set (orders st). recent_completed now ord \<and> orderId d = o_id ord)
       (orderdetails st)"

text \<open>The products with such a line item.\<close>
definition sold_products :: "store \<Rightarrow> date \<Rightarrow> product set" where
  "sold_products st now = {p \<in> set (products st). \<exists>d \<in> set (recent_items st now). productId d = p_id p}"

subsection \<open>PATCH /customers/:id/status\<close>





subsection \<open>A sample store\<close>

definition demo_product :: "objectId \<Rightarrow> string \<Rightarrow> int \<Rightarrow> product" where
  "demo_product i n stock =
     \<lparr>p_id = i, p_name = n, p_function = ''cream'', skinGroup = ''normal'', ageGroup = None,
      genderTarget = Some ''unisex'', brandId = ''b1'', categoryId = ''k1'', imageUrl = None,
      stockQuantity = stock, aiFeatures = []\<rparr>"

definition alice :: customer where
  "alice = \<lparr>c_id = ''c1'', c_name = ''alice'', c_email = ''al@example.com'',
            c_status = ''active'', c_profile = [(''phone'', ''555'')]\<rparr>"

definition john :: customer where
  "john = \<lparr>c_id = ''c2'', c_name = ''John'', c_email = ''j@x'',
           c_status = ''active'', c_profile = []\<rparr>"

definition bob :: customer where
  "bob = \<lparr>c_id = ''c3'', c_name = ''Bob'', c_email = ''bob@example.com'',
          c_status = ''blocked'', c_profile = []\<rparr>"

text \<open>
  Order o1 is of 2024-01-15T10:00Z, o3 and o4 of 2024-01-20T00:00Z, o2 of 2024-02-10T00:00Z.
\<close>
definition order1 :: order where
  "order1 = \<lparr>o_id = ''o1'', customerId = ''c1'', staffId = ''s1'', orderDate = 1705312800000,
              totalAmount = 100, o_status = ''completed''\<rparr>"

definition order2 :: order where
  "order2 = \<lparr>o_id = ''o2'', customerId = ''c2'', staffId = ''s1'', orderDate = 1707523200000,
              totalAmount = 50, o_status = ''completed''\<rparr>"

definition order3 :: order where
  "order3 = \<lparr>o_id = ''o3'', customerId = ''c3'', staffId = ''s1'', orderDate = 1705708800000,
              totalAmount = 70, o_status = ''pending''\<rparr>"

definition order4 :: order where
  "order4 = \<lparr>o_id = ''o4'', customerId = ''c1'', staffId = ''s1'', orderDate = 1705708800000,
              totalAmount = 25, o_status = ''completed''\<rparr>"

definition item1 :: orderDetail where
  "item1 = \<lparr>orderId = ''o1'', productId = ''px'', quantity = 3, unitPrice = 10\<rparr>"

definition item2 :: orderDetail where
  "item2 = \<lparr>orderId = ''o2'', productId = ''py'', quantity = 1, unitPrice = 50\<rparr>"

definition item3 :: orderDetail where
  "item3 = \<lparr>orderId = ''o3'', productId = ''pz'', quantity = 9, unitPrice = 1\<rparr>"

definition item4 :: orderDetail where
  "item4 = \<lparr>orderId = ''o4'', productId = ''py'', quantity = 5, unitPrice = 5\<rparr>"

definition item5 :: orderDetail where
  "item5 = \<lparr>orderId = ''o1'', productId = ''pw'', quantity = 7, unitPrice = 10\<rparr>"

definition demo_store :: store where
  "demo_store =
     \<lparr>customers = [alice, john, bob],
      orders = [order2, order1, order3, order4],
      orderdetails = [item1, item2, item3, item4, item5],
      products = [demo_product ''px'' ''Lotion X'' 5, demo_product ''py'' ''Serum Y'' 50,
                  demo_product ''pz'' ''Mask Z'' 12],
      brands = [\<lparr>b_id = ''b1'', b_name = ''Acme''\<rparr>]\<rparr>"

text \<open>No date range; and the range from 2024-01-01T00:00Z to 2024-01-31T00:00Z.\<close>
definition all_time :: sales_query where
  "all_time = \<lparr>startDate = NotGiven, endDate = NotGiven\<rparr>"

definition january :: sales_query where
  "january = \<lparr>startDate = DateString 1704067200000, endDate = DateString 1706659200000\<rparr>"

text \<open>
  A store that accepts every sort path but the empty one, fails a query whose skip is
  \<open>NaN\<close> or negative, has patterns of literal characters and the dot, and adds and
  multiplies in binary64.
\<close>
definition demo_engine :: engine where
  "demo_engine =
     \<lparr>regex = dot_regex, sort_path = (\<lambda>f. True), odd_skip = (\<lambda>v. None),
      sum_of = binary64_sum, mul_of = binary64_mul\<rparr>"









text \<open>A request that gives a start date (2024-02-01T00:00Z) and no end date.\<close>
definition from_february :: sales_query where
  "from_february = \<lparr>startDate = DateString 1706745600000, endDate = NotGiven\<rparr>"

text \<open>
  A store in which one completed order has line items of ten products, of which only one is
  (still) in the products collection.
\<close>
definition line :: "objectId \<Rightarrow> int \<Rightarrow> orderDetail" where
  "line p n = \<lparr>orderId = ''o1'', productId = p, quantity = n, unitPrice = 2\<rparr>"

definition ten_store :: store where
  "ten_store =
     \<lparr>customers = [],
      orders = [order1],
      orderdetails = [line ''p0'' 10, line ''p1'' 9, line ''p2'' 8, line ''p3'' 7, line ''p4'' 6,
                      line ''p5'' 5, line ''p6'' 4, line ''p7'' 3, line ''p8'' 2, line ''p9'' 1],
      products = [demo_product ''p3'' ''Cream 3'' 4],
      brands = []\<rparr>"




definition by_name :: customer_query where
  "by_name =
     \<lparr>q_search = None, q_sortBy = Some ''name'', q_page = NotSupplied, q_limit = NotSupplied\<rparr>"

definition by_empty_field :: customer_query where
  "by_empty_field =
     \<lparr>q_search = None, q_sortBy = Some '':desc'', q_page = NotSupplied, q_limit = NotSupplied\<rparr>"

definition limit_abc :: customer_query where
  "limit_abc =
     \<lparr>q_search = None, q_sortBy = None, q_page = NotSupplied, q_limit = NonNumeric None\<rparr>"

definition page_abc :: customer_query where
  "page_abc =
     \<lparr>q_search = None, q_sortBy = None, q_page = NonNumeric None, q_limit = NotSupplied\<rparr>"

text \<open>2024-02-15T00:00Z; thirty days earlier is 2024-01-16T00:00Z.\<close>
definition mid_february :: date where
  "mid_february = 1707955200000"

section \<open>Properties\<close>

subsection \<open>Binary64 rounding\<close>

lemma pow2_powr: "pow2 e = (2::real) powr of_int e"
proof (cases "0 \<le> e")
  case True
  then show ?thesis by (simp add: pow2_def powr_realpow [symmetric])
next
  case False
  then have "(2::real) powr of_int e = 1 / 2 powr of_int (- e)"
    by (simp add: powr_minus field_simps)
  also have "(2::real) powr of_int (- e) = 2 ^ nat (- e)"
    using False by (simp add: powr_realpow [symmetric])
  finally show ?thesis using False by (simp add: pow2_def)
qed


lemma half_even_int: "half_even (of_int z) = z"
  by (simp add: half_even_def)

text \<open>The integers below \<open>2^53\<close> are binary64 numbers.\<close>
lemma round64_int:
  assumes "\<bar>n\<bar> < 9007199254740992"
  shows "round64 (of_int n) = of_int n"
proof (cases "n = 0")
  case True
  then show ?thesis by (simp add: round64_def)
next
  case False
  define e where "e = binade (of_int n) - 52"
  have "\<bar>real_of_int n\<bar> < 2 powr 53" using assms by (simp add: abs_if split: if_splits)
  moreover have "0 < \<bar>real_of_int n\<bar>" using False by simp
  ultimately have "log 2 \<bar>real_of_int n\<bar> < 53" by (simp add: log_less_iff)
  then have "binade (of_int n) < 53" unfolding binade_def by (simp add: floor_less_iff)
  then have e: "e \<le> 0" by (simp add: e_def)
  then have p: "pow2 e = 1 / 2 ^ nat (- e)" by (simp add: pow2_def)
  have "real_of_int n / pow2 e = of_int (n * 2 ^ nat (- e))" by (simp add: p)
  then have "half_even (real_of_int n / pow2 e) = n * 2 ^ nat (- e)"
    by (simp only: half_even_int)
  then have "round64 (of_int n) = of_int (n * 2 ^ nat (- e)) * pow2 e"
    using False by (simp add: round64_def e_def)
  then show ?thesis by (simp add: p)
qed

lemma half_even_error: "\<bar>of_int (half_even y) - y\<bar> \<le> 1 / 2"
  unfolding half_even_def by (auto simp: abs_if) linarith+

lemma pow2_binade_le: "x \<noteq> 0 \<Longrightarrow> pow2 (binade x) \<le> \<bar>x\<bar>"
proof -
  assume "x \<noteq> 0"
  then have pos: "0 < \<bar>x\<bar>" by simp
  have "of_int (binade x) \<le> log 2 \<bar>x\<bar>" unfolding binade_def by simp
  then have "(2::real) powr of_int (binade x) \<le> 2 powr log 2 \<bar>x\<bar>" by simp
  with pos show ?thesis by (simp add: pow2_powr)
qed

lemma pow2_shift: "pow2 (b - 52) = pow2 b / 4503599627370496"
proof -
  have "(2::real) powr (of_int b - 52) = 2 powr of_int b / 2 powr 52"
    by (rule powr_diff)
  then show ?thesis by (simp add: pow2_powr)
qed

text \<open>Rounding moves a number by at most half a unit in the last place.\<close>
lemma round64_error: "\<bar>round64 x - x\<bar> \<le> \<bar>x\<bar> / 9007199254740992"
proof (cases "x = 0")
  case True
  then show ?thesis by (simp add: round64_def)
next
  case False
  define u where "u = pow2 (binade x - 52)"
  have u: "0 < u" by (simp add: u_def pow2_powr)
  have "round64 x - x = (of_int (half_even (x / u)) - x / u) * u"
    using False u by (simp add: round64_def u_def [symmetric] field_simps)
  then have "\<bar>round64 x - x\<bar> = \<bar>of_int (half_even (x / u)) - x / u\<bar> * u"
    using u by (simp add: abs_mult)
  also have "\<dots> \<le> 1 / 2 * u"
    using half_even_error [of "x / u"] u by (intro mult_right_mono) simp_all
  also have "\<dots> = pow2 (binade x) / 9007199254740992"
    by (simp add: u_def pow2_shift)
  also have "\<dots> \<le> \<bar>x\<bar> / 9007199254740992"
    using pow2_binade_le [OF False] by (simp add: divide_right_mono)
  finally show ?thesis .
qed

text \<open>
  The quotient of a count below \<open>2^53\<close> by a positive whole number is not rounded onto or
  across a whole number: its ceiling is the ceiling of the exact quotient.
\<close>
lemma ceiling_rounded_quotient:
  fixes n :: nat and l :: int
  assumes "n < 9007199254740992" "1 \<le> l"
  shows "\<lceil>round64 (real n / real_of_int l)\<rceil> = \<lceil>real n / real_of_int l\<rceil>"
proof (cases "l dvd int n")
  case True
  then obtain k where k: "int n = l * k" by (elim dvdE)
  have k0: "0 \<le> k" using k assms(2)
    by (metis of_nat_0_le_iff zero_le_mult_iff not_one_le_zero order.trans linorder_not_le less_le)
  have "k \<le> l * k" using assms(2) k0 by (simp add: mult_le_cancel_right1)
  then have kb: "\<bar>k\<bar> < 9007199254740992" using k assms(1) k0 by linarith
  have "real n = real_of_int l * real_of_int k"
    using k by (metis of_int_mult of_int_of_nat_eq)
  then have q: "real n / real_of_int l = of_int k" using assms(2) by simp
  show ?thesis unfolding q by (simp only: round64_int [OF kb])
next
  case False
  define q where "q = real n / real_of_int l"
  define k where "k = int n div l"
  define r where "r = int n mod l"
  have lpos: "0 < l" using assms(2) by simp
  have "0 \<le> r" and rl: "r < l" using lpos by (simp_all add: r_def)
  moreover have "r \<noteq> 0" using False by (simp add: r_def dvd_eq_mod_eq_0)
  ultimately have r: "0 < r" "r < l" by simp_all
  have n: "int n = k * l + r" by (simp add: k_def r_def)
  have "real n = real_of_int (k * l + r)" using n by (metis of_int_of_nat_eq)
  then have qk: "q = of_int k + of_int r / of_int l"
    using lpos by (simp add: q_def field_simps)
  have step: "0 < 1 / real_of_int l" using lpos by simp
  have lo: "of_int k + 1 / real_of_int l \<le> q"
    unfolding qk using r(1) lpos by (simp add: divide_right_mono)
  have hi: "q \<le> of_int k + 1 - 1 / real_of_int l"
  proof -
    have "r + 1 \<le> l" using r(2) by simp
    then have "real_of_int r + 1 \<le> real_of_int l" by linarith
    then have "real_of_int r / real_of_int l \<le> (real_of_int l - 1) / real_of_int l"
      using lpos by (intro divide_right_mono) simp_all
    also have "\<dots> = 1 - 1 / real_of_int l" using lpos by (simp add: field_simps)
    finally show ?thesis unfolding qk by simp
  qed
  have qpos: "0 \<le> q" using lpos by (simp add: q_def)
  have "\<bar>round64 q - q\<bar> \<le> \<bar>q\<bar> / 9007199254740992" by (rule round64_error)
  also have "\<dots> = real n / 9007199254740992 / real_of_int l"
    using qpos lpos by (simp add: q_def)
  also have "\<dots> < 1 / real_of_int l"
    using assms(1) lpos by (intro divide_strict_right_mono) simp_all
  finally have err: "\<bar>round64 q - q\<bar> < 1 / real_of_int l" .
  have a: "of_int k < round64 q" using err lo by linarith
  have b: "round64 q < of_int k + 1" using err hi by linarith
  have "\<lceil>round64 q\<rceil> = k + 1" using a b by (intro ceiling_unique) simp_all
  moreover have "of_int k < q" "q < of_int k + 1"
    using lo hi step by linarith+
  then have "\<lceil>q\<rceil> = k + 1" by (intro ceiling_unique) simp_all
  ultimately show ?thesis by (simp add: q_def)
qed

lemma round64_numeral:
  "(numeral w :: int) < 9007199254740992 \<Longrightarrow> round64 (numeral w) = numeral w"
  using round64_int [of "numeral w"] by simp

lemma round64_one: "round64 1 = 1"
  using round64_int [of 1] by simp

lemma demo_engine_fields:
  "regex demo_engine = dot_regex" "sort_path demo_engine f = True" "odd_skip demo_engine v = None"
  "sum_of demo_engine = binary64_sum" "mul_of demo_engine = binary64_mul"
  by (simp_all add: demo_engine_def)

subsection \<open>Lists: groups, sums, sorting\<close>

lemma set_group_keys: "set (group_keys key xs) = key ` set xs"
  by (induction xs) auto

lemma distinct_group_keys: "distinct (group_keys key xs)"
  by (induction xs) (auto simp: set_group_keys)







lemma sum_list_filter_disjoint:
  fixes f :: "'a \<Rightarrow> 'b::comm_monoid_add"
  assumes "\<And>x. x \<in> set xs \<Longrightarrow> \<not> (A x \<and> B x)"
  shows "sum_list (map f (filter A xs)) + sum_list (map f (filter B xs)) =
         sum_list (map f (filter (\<lambda>x. A x \<or> B x) xs))"
  using assms by (induction xs) (auto simp: ac_simps)

lemma sum_list_joined:
  fixes f :: "'d \<Rightarrow> 'b::comm_monoid_add"
  assumes "distinct (map oid os)"
  shows "sum_list (map f (concat (map (\<lambda>ord. filter (\<lambda>d. fk d = oid ord \<and> P d) ds) os))) =
         sum_list (map f (filter (\<lambda>d. (\<exists>ord \<in> set os. fk d = oid ord) \<and> P d) ds))"
  using assms
proof (induction os)
  case Nil then show ?case by simp
next
  case (Cons a os)
  have dis: "\<And>d. \<not> ((fk d = oid a \<and> P d) \<and> ((\<exists>ord \<in> set os. fk d = oid ord) \<and> P d))"
    using Cons.prems by auto
  have "sum_list (map f (concat (map (\<lambda>ord. filter (\<lambda>d. fk d = oid ord \<and> P d) ds) (a # os)))) =
        sum_list (map f (filter (\<lambda>d. fk d = oid a \<and> P d) ds)) +
        sum_list (map f (filter (\<lambda>d. (\<exists>ord \<in> set os. fk d = oid ord) \<and> P d) ds))"
    using Cons by simp
  also have "\<dots> = sum_list (map f (filter (\<lambda>d. (fk d = oid a \<and> P d) \<or>
        ((\<exists>ord \<in> set os. fk d = oid ord) \<and> P d)) ds))"
    by (rule sum_list_filter_disjoint) (use dis in blast)
  also have "(\<lambda>d. (fk d = oid a \<and> P d) \<or> ((\<exists>ord \<in> set os. fk d = oid ord) \<and> P d)) =
        (\<lambda>d. (\<exists>ord \<in> set (a # os). fk d = oid ord) \<and> P d)"
    by auto
  finally show ?case .
qed





lemma sorted_desc_sort_dir:
  fixes f :: "'a \<Rightarrow> 'k::linorder"
  shows "sorted_wrt (\<ge>) (map f (sort_dir Desc f xs))"
proof -
  have "sorted (map f (sort_key f (rev xs)))" by simp
  then have "sorted_wrt (\<ge>) (rev (map f (sort_key f (rev xs))))"
    by (simp add: sorted_wrt_rev)
  then show ?thesis by (simp add: rev_map)
qed




subsection \<open>The customer list\<close>

lemma split_on_nonempty: "split_on sep s \<noteq> []"
  by (induction s) (auto split: list.splits)

lemma sort_spec_cases:
  assumes "sb \<noteq> []"
  obtains field rest where "split_on CHR '':'' sb = field # rest"
    "sort_spec (Some sb) = Some (field, if take 1 rest = [''desc''] then Desc else Asc)"
proof (cases "split_on CHR '':'' sb")
  case Nil
  then show ?thesis using split_on_nonempty by blast
next
  case (Cons field rest)
  have "sort_spec (Some sb) = Some (field, if take 1 rest = [''desc''] then Desc else Asc)"
    using assms Cons by (cases rest) (simp_all add: sort_spec_def)
  with Cons show ?thesis by (rule that)
qed

lemma sort_spec_none: "sort_spec sortBy = None \<longleftrightarrow> sortBy = None \<or> sortBy = Some []"
proof (cases sortBy)
  case None then show ?thesis by (simp add: sort_spec_def)
next
  case (Some sb)
  show ?thesis
  proof (cases "sb = []")
    case True with Some show ?thesis by (simp add: sort_spec_def)
  next
    case False
    then obtain field rest where
      "sort_spec (Some sb) = Some (field, if take 1 rest = [''desc''] then Desc else Asc)"
      by (rule sort_spec_cases)
    with Some False show ?thesis by simp
  qed
qed

lemma mset_sort_dir: "mset (sort_dir d f xs) = mset xs"
  by (cases d) simp_all



lemma parse_int_page: "param_or 1 prm = Num p \<Longrightarrow> parse_int prm = Some p"
  by (cases prm) simp_all

text \<open>The answer to a request that the store does not fail.\<close>
lemma get_customers_ok:
  assumes "customer_filter (regex eng) (q_search q) = Some flt"
    and "sort_accepted eng (sort_spec (q_sortBy q))"
    and "param_or 1 (q_page q) = Num p" "param_or 10 (q_limit q) = Num l" "0 \<le> (p - 1) * l"
  shows "get_customers eng st q = Ok200 \<lparr>
           cl_customers = limit_docs l (drop (nat ((p - 1) * l))
              (sort_customers (sort_spec (q_sortBy q)) (filter flt (customers st)))),
           totalPages = total_pages (length (filter flt (customers st))) l,
           currentPage = Some p,
           cl_total = length (filter flt (customers st)) \<rparr>"
proof -
  have "skip_count eng (Num ((p - 1) * l)) = Some (nat ((p - 1) * l))"
    using assms(5) by (simp add: skip_count_def)
  then show ?thesis
    using assms(1-4) by (simp add: get_customers_def parse_int_page)
qed

lemma get_customers_refused:
  assumes "\<not> sort_accepted eng (sort_spec (q_sortBy q))"
  shows "get_customers eng st q = InternalError500"
  using assms by (simp add: get_customers_def split: option.splits)




lemma demo_customers: "customers demo_store = [alice, john, bob]"
  by (simp add: demo_store_def)

lemma demo_names:
  "customer_field ''name'' alice = Some ''alice''"
  "customer_field ''name'' john = Some ''John''"
  "customer_field ''name'' bob = Some ''Bob''"
  by (simp_all add: alice_def john_def bob_def customer_field_def)

lemma demo_sorted_by_name: "sort_key (customer_field ''name'') [alice, john, bob] = [bob, john, alice]"
  by (simp add: demo_names)

lemma demo_sort_by_name:
  "sort_customers (Some (''name'', Asc)) [alice, john, bob] = [bob, john, alice]"
  by (simp only: sort_customers.simps sort_dir.simps demo_sorted_by_name)

lemma total_pages_exact:
  assumes "n < 9007199254740992" "1 \<le> l"
  shows "total_pages n l = Some \<lceil>real n / real_of_int l\<rceil>"
  using assms(2) by (simp add: total_pages_def ceiling_rounded_quotient [OF assms])

lemma one_page: "\<lceil>(1::real) / 10\<rceil> = 1" "\<lceil>(3::real) / 10\<rceil> = 1" "\<lceil>(3::real) / 2\<rceil> = 2"
  by (rule ceiling_unique; simp)+

lemma demo_total_pages_numeral:
  "total_pages 1 10 = Some 1" "total_pages 3 10 = Some 1" "total_pages 3 1 = Some 3"
  using total_pages_exact [of 1 10] total_pages_exact [of 3 10] total_pages_exact [of 3 1]
  by (simp_all add: one_page)

lemma demo_total_pages:
  "total_pages (Suc 0) 10 = Some 1" "total_pages (Suc (Suc (Suc 0))) 10 = Some 1"
  "total_pages (Suc (Suc (Suc 0))) 1 = Some 3"
  by (rule demo_total_pages_numeral [unfolded numeral_3_eq_3 One_nat_def])+

subsection \<open>Pagination\<close>



subsection \<open>Sorting the customer list\<close>

text \<open>
  C6, as amended. Take a request whose filter the store accepts, whose page and limit are
  numbers and whose skip is not negative. When sortBy is absent (or empty) GET /customers
  answers 200 and the customers returned are the window of the matching customers in
  store order. When sortBy is a non-empty string, the text before its first colon is the
  field. When the field is not empty and the store accepts it as a sort path, the
  answer is 200 and the customers returned are the window of the matching customers
  sorted on that field: descending exactly when the text between the first and the second
  colon is \<open>desc\<close>, ascending otherwise (also when there is no colon). When the field is
  empty or the store refuses it, the answer is 500: a sortBy that yields no usable field
  is an error, not a request without sort. The fields \<open>name\<close> and \<open>email\<close> are the name and
  the email of the customer.
\<close>
theorem customers_sorting:
  assumes "customer_filter (regex eng) (q_search q) = Some flt"
    and "param_or 1 (q_page q) = Num p" "param_or 10 (q_limit q) = Num l" "0 \<le> (p - 1) * l"
  shows "(q_sortBy q = None \<or> q_sortBy q = Some [] \<longrightarrow>
       (\<exists>r. get_customers eng st q = Ok200 r \<and>
            cl_customers r = limit_docs l (drop (nat ((p - 1) * l)) (filter flt (customers st))))) \<and>
    (\<forall>sb. q_sortBy q = Some sb \<and> sb \<noteq> [] \<longrightarrow>
       (\<exists>field rest. split_on CHR '':'' sb = field # rest \<and>
          (field \<noteq> [] \<and> sort_path eng field \<longrightarrow>
             (\<exists>r L. get_customers eng st q = Ok200 r \<and>
                cl_customers r = limit_docs l (drop (nat ((p - 1) * l)) L) \<and>
                mset L = mset (filter flt (customers st)) \<and>
                (if take 1 rest = [''desc'']
                 then sorted_wrt (\<ge>) (map (customer_field field) L)
                 else sorted (map (customer_field field) L)))) \<and>
          (field = [] \<or> \<not> sort_path eng field \<longrightarrow> get_customers eng st q = InternalError500))) \<and>
    (\<forall>c. customer_field ''name'' c = Some (c_name c) \<and>
         customer_field ''email'' c = Some (c_email c))"
proof (intro conjI)
  let ?M = "filter flt (customers st)"
  let ?w = "\<lambda>xs. limit_docs l (drop (nat ((p - 1) * l)) xs)"
  show "q_sortBy q = None \<or> q_sortBy q = Some [] \<longrightarrow>
       (\<exists>r. get_customers eng st q = Ok200 r \<and> cl_customers r = ?w ?M)"
  proof
    assume "q_sortBy q = None \<or> q_sortBy q = Some []"
    then have n: "sort_spec (q_sortBy q) = None" by (simp only: sort_spec_none)
    then have "sort_accepted eng (sort_spec (q_sortBy q))" by (simp add: sort_accepted_def)
    from get_customers_ok [OF assms(1) this assms(2-4), of st] n
    show "\<exists>r. get_customers eng st q = Ok200 r \<and> cl_customers r = ?w ?M" by simp
  qed
  show "\<forall>sb. q_sortBy q = Some sb \<and> sb \<noteq> [] \<longrightarrow>
       (\<exists>field rest. split_on CHR '':'' sb = field # rest \<and>
          (field \<noteq> [] \<and> sort_path eng field \<longrightarrow>
             (\<exists>r L. get_customers eng st q = Ok200 r \<and>
                cl_customers r = ?w L \<and>
                mset L = mset ?M \<and>
                (if take 1 rest = [''desc'']
                 then sorted_wrt (\<ge>) (map (customer_field field) L)
                 else sorted (map (customer_field field) L)))) \<and>
          (field = [] \<or> \<not> sort_path eng field \<longrightarrow> get_customers eng st q = InternalError500))"
  proof (intro allI impI)
    fix sb assume sb: "q_sortBy q = Some sb \<and> sb \<noteq> []"
    then obtain field rest where sp: "split_on CHR '':'' sb = field # rest"
      and ss: "sort_spec (Some sb) = Some (field, if take 1 rest = [''desc''] then Desc else Asc)"
      using sort_spec_cases by blast
    let ?d = "if take 1 rest = [''desc''] then Desc else Asc"
    let ?L = "sort_dir ?d (customer_field field) ?M"
    have spec: "sort_spec (q_sortBy q) = Some (field, ?d)" using sb ss by simp
    have good: "field \<noteq> [] \<and> sort_path eng field \<longrightarrow>
             (\<exists>r L. get_customers eng st q = Ok200 r \<and>
                cl_customers r = ?w L \<and>
                mset L = mset ?M \<and>
                (if take 1 rest = [''desc'']
                 then sorted_wrt (\<ge>) (map (customer_field field) L)
                 else sorted (map (customer_field field) L)))"
    proof
      assume "field \<noteq> [] \<and> sort_path eng field"
      then have "sort_accepted eng (sort_spec (q_sortBy q))"
        by (simp add: spec sort_accepted_def)
      from get_customers_ok [OF assms(1) this assms(2-4), of st]
      have ok: "\<exists>r. get_customers eng st q = Ok200 r \<and> cl_customers r = ?w ?L"
        by (simp add: spec)
      have m: "mset ?L = mset ?M" by (rule mset_sort_dir)
      have srt: "if take 1 rest = [''desc'']
                 then sorted_wrt (\<ge>) (map (customer_field field) ?L)
                 else sorted (map (customer_field field) ?L)"
      proof (cases "take 1 rest = [''desc'']")
        case True
        have "sorted_wrt (\<ge>) (map (customer_field field) (sort_dir Desc (customer_field field) ?M))"
          by (rule sorted_desc_sort_dir)
        with True show ?thesis by simp
      next
        case False
        then show ?thesis by simp
      qed
      from ok m srt
      show "\<exists>r L. get_customers eng st q = Ok200 r \<and>
                cl_customers r = ?w L \<and>
                mset L = mset ?M \<and>
                (if take 1 rest = [''desc'']
                 then sorted_wrt (\<ge>) (map (customer_field field) L)
                 else sorted (map (customer_field field) L))"
        by blast
    qed
    have bad: "field = [] \<or> \<not> sort_path eng field \<longrightarrow> get_customers eng st q = InternalError500"
    proof
      assume "field = [] \<or> \<not> sort_path eng field"
      then have "\<not> sort_accepted eng (sort_spec (q_sortBy q))"
        by (auto simp: spec sort_accepted_def)
      then show "get_customers eng st q = InternalError500" by (rule get_customers_refused)
    qed
    from sp good bad
    show "\<exists>field rest. split_on CHR '':'' sb = field # rest \<and>
          (field \<noteq> [] \<and> sort_path eng field \<longrightarrow>
             (\<exists>r L. get_customers eng st q = Ok200 r \<and>
                cl_customers r = ?w L \<and>
                mset L = mset ?M \<and>
                (if take 1 rest = [''desc'']
                 then sorted_wrt (\<ge>) (map (customer_field field) L)
                 else sorted (map (customer_field field) L)))) \<and>
          (field = [] \<or> \<not> sort_path eng field \<longrightarrow> get_customers eng st q = InternalError500)"
      by blast
  qed
  show "\<forall>c. customer_field ''name'' c = Some (c_name c) \<and>
         customer_field ''email'' c = Some (c_email c)"
    by (simp add: customer_field_def)
qed

lemma by_name_request:
  "customer_filter (regex demo_engine) (q_search by_name) = Some (\<lambda>c. True)"
  "param_or 1 (q_page by_name) = Num 1" "param_or 10 (q_limit by_name) = Num 10"
  "(0::int) \<le> (1 - 1) * 10" "q_sortBy by_name = Some ''name''"
  by (simp_all add: by_name_def customer_filter_def)

lemma by_empty_field_request:
  "customer_filter (regex demo_engine) (q_search by_empty_field) = Some (\<lambda>c. True)"
  "param_or 1 (q_page by_empty_field) = Num 1" "param_or 10 (q_limit by_empty_field) = Num 10"
  "(0::int) \<le> (1 - 1) * 10" "q_sortBy by_empty_field = Some '':desc''"
  by (simp_all add: by_empty_field_def customer_filter_def)

lemma by_name_answer:
  "get_customers demo_engine demo_store by_name =
     Ok200 \<lparr>cl_customers = [bob, john, alice], totalPages = Some 1, currentPage = Some 1,
            cl_total = 3\<rparr>"
proof -
  have s0: "sort_spec (q_sortBy by_name) = Some (''name'', Asc)"
    by (simp add: by_name_def sort_spec_def)
  have acc: "sort_accepted demo_engine (sort_spec (q_sortBy by_name))"
    unfolding s0 by (simp add: sort_accepted_def demo_engine_fields)
  show ?thesis
    unfolding get_customers_ok [OF by_name_request(1) acc by_name_request(2-4), of demo_store] s0
    by (simp add: demo_customers demo_sort_by_name limit_docs_def demo_total_pages
          del: sort_customers.simps)
qed

theorem customers_sorting_witness:
  "q_sortBy by_name = Some ''name'' \<and> split_on CHR '':'' ''name'' = [''name''] \<and>
   sort_path demo_engine ''name'' \<and>
   get_customers demo_engine demo_store by_name =
     Ok200 \<lparr>cl_customers = [bob, john, alice], totalPages = Some 1, currentPage = Some 1,
            cl_total = 3\<rparr> \<and>
   customers demo_store = [alice, john, bob] \<and>
   sorted (map (customer_field ''name'') [bob, john, alice]) \<and>
   map (customer_field ''name'') [bob, john, alice] = [Some ''Bob'', Some ''John'', Some ''alice''] \<and>
   q_sortBy by_empty_field = Some '':desc'' \<and> split_on CHR '':'' '':desc'' = ['''', ''desc''] \<and>
   get_customers demo_engine demo_store by_empty_field = InternalError500"
proof -
  note thm1 = customers_sorting [OF by_name_request(1-4), of demo_store]
  have sp: "split_on CHR '':'' ''name'' = [''name'']" by simp
  have path: "sort_path demo_engine ''name''" by (simp add: demo_engine_fields)
  from thm1 [THEN conjunct2, THEN conjunct1] by_name_request(5)
  obtain field rest where fr: "split_on CHR '':'' ''name'' = field # rest"
    and good: "field \<noteq> [] \<and> sort_path demo_engine field \<longrightarrow>
       (\<exists>r L. get_customers demo_engine demo_store by_name = Ok200 r \<and>
          cl_customers r = limit_docs 10 (drop (nat ((1 - 1) * 10)) L) \<and>
          mset L = mset (filter (\<lambda>c. True) (customers demo_store)) \<and>
          (if take 1 rest = [''desc'']
           then sorted_wrt (\<ge>) (map (customer_field field) L)
           else sorted (map (customer_field field) L)))"
    by blast
  from fr sp have f: "field = ''name''" and r0: "rest = []" by simp_all
  from good path obtain r L where
    ok: "get_customers demo_engine demo_store by_name = Ok200 r"
    and w: "cl_customers r = limit_docs 10 (drop (nat ((1 - 1) * 10)) L)"
    and m: "mset L = mset (filter (\<lambda>c. True) (customers demo_store))"
    and srt: "sorted (map (customer_field ''name'') L)"
    unfolding f r0 by auto
  from m have "size (mset L) = 3" by (simp add: demo_customers)
  then have len: "length L = 3" by simp
  from ok by_name_answer
  have "r = \<lparr>cl_customers = [bob, john, alice], totalPages = Some 1, currentPage = Some 1,
            cl_total = 3\<rparr>"
    by simp
  then have "cl_customers r = [bob, john, alice]" by simp
  with w len have L: "L = [bob, john, alice]" by (simp add: limit_docs_def)
  from srt have s: "sorted (map (customer_field ''name'') [bob, john, alice])" unfolding L .
  have keys: "map (customer_field ''name'') [bob, john, alice] =
      [Some ''Bob'', Some ''John'', Some ''alice'']"
    by (simp add: demo_names)
  note thm2 = customers_sorting [OF by_empty_field_request(1-4), of demo_store]
  have sp2: "split_on CHR '':'' '':desc'' = ['''', ''desc'']" by simp
  from thm2 [THEN conjunct2, THEN conjunct1] by_empty_field_request(5)
  obtain field2 rest2 where fr2: "split_on CHR '':'' '':desc'' = field2 # rest2"
    and bad: "field2 = [] \<or> \<not> sort_path demo_engine field2 \<longrightarrow>
       get_customers demo_engine demo_store by_empty_field = InternalError500"
    by blast
  from fr2 sp2 have "field2 = []" by simp
  with bad have e: "get_customers demo_engine demo_store by_empty_field = InternalError500"
    by simp
  from by_name_request(5) sp path by_name_answer demo_customers s keys
    by_empty_field_request(5) sp2 e
  show ?thesis by (intro conjI)
qed

text \<open>
  C6 as stated has a sortBy without a usable field applied as no sort. The request with
  \<open>sortBy=:desc\<close> has the empty field: it is answered 500, while the same request
  without sortBy is answered 200 with the customers in store order.
\<close>
theorem empty_sort_field_is_500:
  "q_sortBy by_empty_field = Some '':desc'' \<and>
   split_on CHR '':'' '':desc'' = ['''', ''desc''] \<and>
   sort_spec (q_sortBy by_empty_field) = Some ('''', Desc) \<and>
   get_customers demo_engine demo_store by_empty_field = InternalError500 \<and>
   get_customers demo_engine demo_store (by_empty_field \<lparr>q_sortBy := None\<rparr>) =
     Ok200 \<lparr>cl_customers = [alice, john, bob], totalPages = Some 1, currentPage = Some 1,
            cl_total = 3\<rparr>"
proof -
  have s0: "sort_spec (q_sortBy by_empty_field) = Some ('''', Desc)"
    by (simp add: by_empty_field_def sort_spec_def)
  have "\<not> sort_accepted demo_engine (sort_spec (q_sortBy by_empty_field))"
    unfolding s0 by (simp add: sort_accepted_def)
  then have e: "get_customers demo_engine demo_store by_empty_field = InternalError500"
    by (rule get_customers_refused)
  let ?q = "by_empty_field \<lparr>q_sortBy := None\<rparr>"
  have s1: "sort_spec (q_sortBy ?q) = None" by (simp add: sort_spec_def)
  have h: "customer_filter (regex demo_engine) (q_search ?q) = Some (\<lambda>c. True)"
    "sort_accepted demo_engine (sort_spec (q_sortBy ?q))"
    "param_or 1 (q_page ?q) = Num 1" "param_or 10 (q_limit ?q) = Num 10"
    "(0::int) \<le> (1 - 1) * 10"
    unfolding s1 by (simp_all add: by_empty_field_def customer_filter_def sort_accepted_def)
  have ok: "get_customers demo_engine demo_store ?q =
     Ok200 \<lparr>cl_customers = [alice, john, bob], totalPages = Some 1, currentPage = Some 1,
            cl_total = 3\<rparr>"
    unfolding get_customers_ok [OF h, of demo_store] s1
    by (simp add: demo_customers limit_docs_def demo_total_pages)
  have sp: "split_on CHR '':'' '':desc'' = ['''', ''desc'']" by simp
  from by_empty_field_request(5) sp s0 e ok show ?thesis by (intro conjI)
qed

subsection \<open>Page and limit that are not numbers\<close>

text \<open>
  C8, as amended. GET /customers validates neither page nor limit and never answers 400:
  its status is 200 or 500. A request whose limit is present but not numeric is answered
  500 from the catch, for the query builder cannot cast the limit to a number. A page
  that is not numeric makes the skip \<open>NaN\<close>; what the store does with it is the store's,
  and the answer is 200 or 500.
\<close>
theorem no_validation_error:
  "(http_status (get_customers eng st q) = 200 \<or> http_status (get_customers eng st q) = 500) \<and>
   ((\<exists>k. q_limit q = NonNumeric k) \<longrightarrow> get_customers eng st q = InternalError500)"
proof
  show "http_status (get_customers eng st q) = 200 \<or> http_status (get_customers eng st q) = 500"
    by (simp add: get_customers_def split: option.splits jsnum.splits)
  show "(\<exists>k. q_limit q = NonNumeric k) \<longrightarrow> get_customers eng st q = InternalError500"
  proof
    assume "\<exists>k. q_limit q = NonNumeric k"
    then have "param_or 10 (q_limit q) = NaN" by auto
    then show "get_customers eng st q = InternalError500"
      by (simp add: get_customers_def split: option.splits)
  qed
qed

theorem no_validation_error_witness:
  "q_limit limit_abc = NonNumeric None \<and>
   get_customers demo_engine demo_store limit_abc = InternalError500 \<and>
   http_status (get_customers demo_engine demo_store limit_abc) = 500"
proof -
  have h: "q_limit limit_abc = NonNumeric None" by (simp add: limit_abc_def)
  then have "\<exists>k. q_limit limit_abc = NonNumeric k" by blast
  from mp [OF no_validation_error [of demo_engine demo_store limit_abc, THEN conjunct2] this]
  have e: "get_customers demo_engine demo_store limit_abc = InternalError500" .
  then have "http_status (get_customers demo_engine demo_store limit_abc) = 500" by simp
  with h e show ?thesis by (intro conjI)
qed

text \<open>
  C8 as stated asks for status 400. The request with \<open>limit=abc\<close> is answered 500.
\<close>
theorem non_numeric_limit_is_500:
  "q_limit limit_abc = NonNumeric None \<and>
   get_customers demo_engine demo_store limit_abc = InternalError500 \<and>
   http_status (get_customers demo_engine demo_store limit_abc) \<noteq> 400"
  by (simp add: get_customers_def limit_abc_def customer_filter_def sort_accepted_def sort_spec_def)

text \<open>
  What a page that is not a number yields is the store's: a store that fails a query whose
  skip is \<open>NaN\<close> answers 500, a store that skips nothing then answers 200.
\<close>
lemma non_numeric_page_is_the_stores:
  "get_customers demo_engine demo_store page_abc = InternalError500 \<and>
   http_status (get_customers (demo_engine \<lparr>odd_skip := (\<lambda>v. Some 0)\<rparr>) demo_store page_abc) = 200"
  by (simp add: get_customers_def page_abc_def customer_filter_def sort_accepted_def sort_spec_def
        skip_count_def demo_engine_fields)

subsection \<open>Searching customers\<close>












subsection \<open>Sales by month\<close>







lemmas date_defs = year_month_def year_of_def month_of_def civil_year_def civil_month_def month_index_def
  day_of_year_def year_of_era_def day_of_era_def era_def

lemma demo_year_month:
  "year_month order1 = (2024, 1)" "year_month order2 = (2024, 2)"
  "year_month order3 = (2024, 1)" "year_month order4 = (2024, 1)"
  by (simp_all add: order1_def order2_def order3_def order4_def date_defs)

lemma demo_match_all_time:
  "match_order (matchStage all_time) order1" "match_order (matchStage all_time) order2"
  "\<not> match_order (matchStage all_time) order3" "match_order (matchStage all_time) order4"
  by (simp_all add: order1_def order2_def order3_def order4_def match_order_def matchStage_def all_time_def)

lemma demo_amounts:
  "totalAmount order1 = 100" "totalAmount order2 = 50" "totalAmount order3 = 70" "totalAmount order4 = 25"
  by (simp_all add: order1_def order2_def order3_def order4_def)

lemma demo_matching: "filter (match_order (matchStage all_time)) (orders demo_store) = [order2, order1, order4]"
  by (simp add: demo_store_def demo_match_all_time)

lemma demo_sums: "binary64_sum [50] = 50" "binary64_sum [100, 25] = 125"
  by (simp_all add: binary64_sum_def round64_numeral)

lemma demo_groups: "sales_groups demo_engine [order2, order1, order4] =
   [\<lparr>sr_id = (2024, 2), totalSales = 50, orderCount = 1\<rparr>,
    \<lparr>sr_id = (2024, 1), totalSales = 125, orderCount = 2\<rparr>]"
  by (simp add: sales_groups_def group_stage_def demo_year_month demo_amounts demo_engine_fields
        demo_sums)

lemma demo_sales_all_time:
  "salesAnalytics demo_engine demo_store all_time =
     [\<lparr>sr_id = (2024, 1), totalSales = 125, orderCount = 2\<rparr>,
      \<lparr>sr_id = (2024, 2), totalSales = 50, orderCount = 1\<rparr>]"
  by (simp add: salesAnalytics_def demo_matching demo_groups less_eq_prod_def)









subsection \<open>Top-selling products\<close>

lemma unwound_group:
  "map (\<lambda>(ord, d). f d) (filter (\<lambda>(ord, d). productId d = k) (unwind_items st os)) =
   map f (concat (map (\<lambda>ord. filter (\<lambda>d. orderId d = o_id ord \<and> productId d = k) (orderdetails st)) os))"
  by (induction os) (simp_all add: unwind_items_def lookup_items_def filter_map comp_def)

lemma joined_sum:
  fixes f :: "orderDetail \<Rightarrow> 'b::comm_monoid_add"
  assumes "distinct (map o_id os)"
  shows "sum_list (map f (concat (map (\<lambda>ord. filter (\<lambda>d. orderId d = o_id ord \<and> productId d = k)
            (orderdetails st)) os))) =
         sum_list (map f (filter (\<lambda>d. productId d = k)
            (filter (\<lambda>d. \<exists>ord \<in> set os. orderId d = o_id ord) (orderdetails st))))"
proof -
  have "sum_list (map f (concat (map (\<lambda>ord. filter (\<lambda>d. orderId d = o_id ord \<and> productId d = k)
            (orderdetails st)) os))) =
        sum_list (map f (filter (\<lambda>d. (\<exists>ord \<in> set os. orderId d = o_id ord) \<and> productId d = k)
           (orderdetails st)))"
    by (rule sum_list_joined [OF assms])
  also have "filter (\<lambda>d. (\<exists>ord \<in> set os. orderId d = o_id ord) \<and> productId d = k) (orderdetails st) =
        filter (\<lambda>d. productId d = k)
            (filter (\<lambda>d. \<exists>ord \<in> set os. orderId d = o_id ord) (orderdetails st))"
    by simp
  finally show ?thesis .
qed

lemma unwound_sum:
  fixes f :: "orderDetail \<Rightarrow> 'b::comm_monoid_add"
  assumes "distinct (map o_id os)"
  shows "sum_list (map (\<lambda>(ord, d). f d) (filter (\<lambda>(ord, d). productId d = k) (unwind_items st os))) =
         sum_list (map f (filter (\<lambda>d. productId d = k)
            (filter (\<lambda>d. \<exists>ord \<in> set os. orderId d = o_id ord) (orderdetails st))))"
  by (simp only: unwound_group joined_sum [OF assms])

lemma unwound_keys:
  "(\<lambda>(ord, d). productId d) ` set (unwind_items st os) =
   productId ` set (filter (\<lambda>d. \<exists>ord \<in> set os. orderId d = o_id ord) (orderdetails st))"
  by (auto simp: unwind_items_def lookup_items_def image_iff)



lemma join_product_member:
  assumes "y \<in> set (join_product st g)"
  shows "tr_id y = tr_id g" "totalQuantity y = totalQuantity g" "totalRevenue y = totalRevenue g"
    "tp_product y \<in> set (products st)" "p_id (tp_product y) = tr_id g"
  using assms by (auto simp: join_product_def)


lemma topProducts_member:
  assumes "r \<in> set (topProducts eng st q)"
  obtains g where "g \<in> set (top_groups eng st q)" "r \<in> set (join_product st g)"
  using assms by (auto simp: topProducts_def)










lemma demo_unique_ids: "unique_ids demo_store"
  by (simp add: unique_ids_def demo_store_def order1_def order2_def order3_def order4_def demo_product_def)

lemma demo_item_fields:
  "orderId item1 = ''o1''" "productId item1 = ''px''" "quantity item1 = 3" "unitPrice item1 = 10"
  "orderId item2 = ''o2''" "productId item2 = ''py''" "quantity item2 = 1" "unitPrice item2 = 50"
  "orderId item3 = ''o3''" "productId item3 = ''pz''" "quantity item3 = 9" "unitPrice item3 = 1"
  "orderId item4 = ''o4''" "productId item4 = ''py''" "quantity item4 = 5" "unitPrice item4 = 5"
  "orderId item5 = ''o1''" "productId item5 = ''pw''" "quantity item5 = 7" "unitPrice item5 = 10"
  by (simp_all add: item1_def item2_def item3_def item4_def item5_def)



lemma demo_order_ids:
  "o_id order1 = ''o1''" "o_id order2 = ''o2''" "o_id order3 = ''o3''" "o_id order4 = ''o4''"
  by (simp_all add: order1_def order2_def order3_def order4_def)




lemma demo_product_id: "p_id (demo_product i n k) = i"
  by (simp add: demo_product_def)

lemma demo_products:
  "products demo_store = [demo_product ''px'' ''Lotion X'' 5, demo_product ''py'' ''Serum Y'' 50,
                          demo_product ''pz'' ''Mask Z'' 12]"
  by (simp add: demo_store_def)












subsection \<open>Products that no longer exist\<close>

lemma line_fields: "orderId (line p n) = ''o1''" "productId (line p n) = p" "quantity (line p n) = n"
  "line_revenue eng (line p n) = mul_of eng (real_of_int n) 2"
  by (simp_all add: line_def line_revenue_def)

lemma ten_matching: "filter (match_order (matchStage all_time)) (orders ten_store) = [order1]"
  by (simp add: ten_store_def demo_match_all_time)

lemma ten_items: "orderdetails ten_store =
   [line ''p0'' 10, line ''p1'' 9, line ''p2'' 8, line ''p3'' 7, line ''p4'' 6,
    line ''p5'' 5, line ''p6'' 4, line ''p7'' 3, line ''p8'' 2, line ''p9'' 1]"
  by (simp add: ten_store_def)

lemma ten_matching_items: "matching_items ten_store all_time = orderdetails ten_store"
  by (simp add: matching_items_def ten_items) (simp add: ten_store_def demo_match_all_time demo_order_ids line_fields)

lemma ten_distinct: "distinct (map productId (orderdetails ten_store))" "length (orderdetails ten_store) = 10"
  by (simp_all add: ten_items line_fields)

lemma ten_unique_ids: "unique_ids ten_store"
  by (simp add: unique_ids_def ten_store_def)

lemma ten_unwound: "unwind_items ten_store [order1] = map (Pair order1) (orderdetails ten_store)"
  by (simp add: unwind_items_def lookup_items_def ten_items line_fields demo_order_ids)

lemma ten_top_groups:
  "top_groups eng ten_store all_time =
     map (\<lambda>(p, n). \<lparr>tr_id = p, totalQuantity = n,
                    totalRevenue = sum_of eng [mul_of eng (real_of_int n) 2]\<rparr>)
       [(''p0'', 10), (''p1'', 9), (''p2'', 8), (''p3'', 7), (''p4'', 6),
        (''p5'', 5), (''p6'', 4), (''p7'', 3), (''p8'', 2), (''p9'', 1)]"
  by (simp add: top_groups_def ten_matching ten_unwound ten_items product_groups_def group_stage_def line_fields)

lemma ten_products: "products ten_store = [demo_product ''p3'' ''Cream 3'' 4]"
  by (simp add: ten_store_def)

lemma ten_top_products:
  "topProducts eng ten_store all_time =
     [\<lparr>tr_id = ''p3'', totalQuantity = 7, totalRevenue = sum_of eng [mul_of eng 7 2],
        tp_product = demo_product ''p3'' ''Cream 3'' 4\<rparr>]"
  by (simp add: topProducts_def ten_top_groups join_product_def ten_products demo_product_id)

lemma ten_revenues:
  "sum_of demo_engine [mul_of demo_engine 7 2] = 14" "sum_of demo_engine [mul_of demo_engine 10 2] = 20"
  by (simp_all add: demo_engine_fields binary64_mul_def binary64_sum_def round64_numeral)

lemma ten_sold_products: "card (productId ` set (matching_items ten_store all_time)) = 10"
  using distinct_card [OF ten_distinct(1)] by (simp add: ten_matching_items ten_distinct(2))

text \<open>
  C10. Every row of topSellingProducts carries an existing Product document whose id is
  the row's productId; a group among the first ten whose productId is the id of no
  Product yields no row. So the list can be shorter than ten although ten or more
  distinct products have line items on matching orders: there is such a store.
\<close>
theorem top_products_resolve:
  "(\<forall>r \<in> set (topProducts eng st q).
      tp_product r \<in> set (products st) \<and> p_id (tp_product r) = tr_id r) \<and>
   (\<forall>g \<in> set (top_groups eng st q).
      (\<forall>p \<in> set (products st). p_id p \<noteq> tr_id g) \<longrightarrow> join_product st g = []) \<and>
   (\<exists>st' q'. unique_ids st' \<and> 10 \<le> card (productId ` set (matching_items st' q')) \<and>
      length (topProducts eng st' q') < 10)"
proof (intro conjI ballI impI)
  fix r assume "r \<in> set (topProducts eng st q)"
  then obtain g where "g \<in> set (top_groups eng st q)" "r \<in> set (join_product st g)"
    by (rule topProducts_member)
  then show "tp_product r \<in> set (products st)" "p_id (tp_product r) = tr_id r"
    by (simp_all add: join_product_member)
next
  fix g :: top_row assume "\<forall>p \<in> set (products st). p_id p \<noteq> tr_id g"
  then show "join_product st g = []"
    by (simp add: join_product_def filter_empty_conv)
next
  have "unique_ids ten_store \<and> 10 \<le> card (productId ` set (matching_items ten_store all_time)) \<and>
      length (topProducts eng ten_store all_time) < 10"
    by (simp add: ten_unique_ids ten_sold_products ten_top_products)
  then show "\<exists>st' q'. unique_ids st' \<and> 10 \<le> card (productId ` set (matching_items st' q')) \<and>
      length (topProducts eng st' q') < 10"
    by blast
qed

theorem top_products_resolve_witness:
  "(let row = \<lparr>tr_id = ''p3'', totalQuantity = 7, totalRevenue = 14,
                tp_product = demo_product ''p3'' ''Cream 3'' 4\<rparr>;
        g = \<lparr>tr_id = ''p0'', totalQuantity = 10, totalRevenue = 20\<rparr>
    in row \<in> set (topProducts demo_engine ten_store all_time) \<and>
       tp_product row \<in> set (products ten_store) \<and> p_id (tp_product row) = tr_id row \<and>
       g \<in> set (top_groups demo_engine ten_store all_time) \<and>
       tr_id g \<notin> set (map p_id (products ten_store)) \<and>
       join_product ten_store g = [] \<and>
       length (topProducts demo_engine ten_store all_time) = 1)"
proof -
  let ?row = "\<lparr>tr_id = ''p3'', totalQuantity = 7, totalRevenue = 14,
                tp_product = demo_product ''p3'' ''Cream 3'' 4\<rparr>"
  let ?g = "\<lparr>tr_id = ''p0'', totalQuantity = 10, totalRevenue = 20\<rparr>"
  have mem: "?row \<in> set (topProducts demo_engine ten_store all_time)"
    by (simp add: ten_top_products ten_revenues)
  have gm: "?g \<in> set (top_groups demo_engine ten_store all_time)"
    by (simp add: ten_top_groups ten_revenues)
  have np: "\<forall>p \<in> set (products ten_store). p_id p \<noteq> tr_id ?g"
    by (simp add: ten_products demo_product_id)
  have np': "tr_id ?g \<notin> set (map p_id (products ten_store))"
    by (simp add: ten_products demo_product_id)
  have len: "length (topProducts demo_engine ten_store all_time) = 1"
    by (simp add: ten_top_products)
  note t = top_products_resolve [of demo_engine ten_store all_time]
  note a = bspec [OF t [THEN conjunct1] mem]
  note b = mp [OF bspec [OF t [THEN conjunct2, THEN conjunct1] gm] np]
  show ?thesis
    unfolding Let_def
    using mem a [THEN conjunct1] a [THEN conjunct2] gm np' b len
    by (intro conjI)
qed

subsection \<open>The date range\<close>

lemma from_february_sales:
  "salesAnalytics eng demo_store from_february = salesAnalytics eng demo_store all_time"
  by (simp add: salesAnalytics_def matchStage_def from_february_def all_time_def)

text \<open>
  C9. The match stage of GET /analytics/sales restricts orderDate to the closed range from
  startDate to endDate when both are supplied. When one of them is missing (or empty) the
  stage is \<open>{status: "completed"}\<close> alone: an order passes exactly when it is completed,
  and the response is the one of the request without dates.
\<close>
theorem date_range_needs_both:
  "(startDate q = DateString s \<and> endDate q = DateString e \<longrightarrow>
      match_order (matchStage q) ord =
        (o_status ord = ''completed'' \<and> s \<le> orderDate ord \<and> orderDate ord \<le> e)) \<and>
   ((\<forall>s. startDate q \<noteq> DateString s) \<or> (\<forall>e. endDate q \<noteq> DateString e) \<longrightarrow>
      matchStage q = \<lparr>m_status = ''completed'', m_orderDate = None\<rparr> \<and>
      match_order (matchStage q) ord = (o_status ord = ''completed'') \<and>
      get_analytics_sales eng st q =
        get_analytics_sales eng st \<lparr>startDate = NotGiven, endDate = NotGiven\<rparr>)"
proof (intro conjI impI)
  assume "startDate q = DateString s \<and> endDate q = DateString e"
  then show "match_order (matchStage q) ord =
        (o_status ord = ''completed'' \<and> s \<le> orderDate ord \<and> orderDate ord \<le> e)"
    by (simp add: matchStage_def match_order_def)
next
  assume a: "(\<forall>s. startDate q \<noteq> DateString s) \<or> (\<forall>e. endDate q \<noteq> DateString e)"
  then show m: "matchStage q = \<lparr>m_status = ''completed'', m_orderDate = None\<rparr>"
    by (auto simp: matchStage_def split: date_param.splits)
  then show "match_order (matchStage q) ord = (o_status ord = ''completed'')"
    by (simp add: match_order_def)
  have "matchStage \<lparr>startDate = NotGiven, endDate = NotGiven\<rparr> = matchStage q"
    by (simp add: m) (simp add: matchStage_def)
  then show "get_analytics_sales eng st q =
        get_analytics_sales eng st \<lparr>startDate = NotGiven, endDate = NotGiven\<rparr>"
    by (simp add: get_analytics_sales_def salesAnalytics_def topProducts_def top_groups_def)
qed

theorem date_range_needs_both_witness:
  "endDate from_february = NotGiven \<and>
   matchStage from_february = \<lparr>m_status = ''completed'', m_orderDate = None\<rparr> \<and>
   match_order (matchStage from_february) order1 = (o_status order1 = ''completed'') \<and>
   get_analytics_sales demo_engine demo_store from_february =
     get_analytics_sales demo_engine demo_store \<lparr>startDate = NotGiven, endDate = NotGiven\<rparr> \<and>
   salesAnalytics demo_engine demo_store from_february =
     [\<lparr>sr_id = (2024, 1), totalSales = 125, orderCount = 2\<rparr>,
      \<lparr>sr_id = (2024, 2), totalSales = 50, orderCount = 1\<rparr>] \<and>
   startDate january = DateString 1704067200000 \<and> endDate january = DateString 1706659200000 \<and>
   match_order (matchStage january) order2 =
     (o_status order2 = ''completed'' \<and> 1704067200000 \<le> orderDate order2 \<and>
      orderDate order2 \<le> 1706659200000) \<and>
   \<not> match_order (matchStage january) order2"
proof -
  have h: "(\<forall>s. startDate from_february \<noteq> DateString s) \<or>
    (\<forall>e. endDate from_february \<noteq> DateString e)"
    by (simp add: from_february_def)
  have j: "startDate january = DateString 1704067200000 \<and> endDate january = DateString 1706659200000"
    by (simp add: january_def)
  note a = date_range_needs_both [of from_february _ _ order1 demo_engine demo_store,
             THEN conjunct2, rule_format, OF h]
  note b = date_range_needs_both [of january 1704067200000 1706659200000 order2 demo_engine demo_store,
             THEN conjunct1, rule_format, OF j]
  have n: "\<not> match_order (matchStage january) order2"
    unfolding b by (simp add: order2_def)
  have ev: "salesAnalytics demo_engine demo_store from_february =
     [\<lparr>sr_id = (2024, 1), totalSales = 125, orderCount = 2\<rparr>,
      \<lparr>sr_id = (2024, 2), totalSales = 50, orderCount = 1\<rparr>]"
    by (simp only: from_february_sales demo_sales_all_time)
  have ng: "endDate from_february = NotGiven" by (simp add: from_february_def)
  show ?thesis
    using ng a [THEN conjunct1] a [THEN conjunct2, THEN conjunct1] a [THEN conjunct2, THEN conjunct2]
      ev j [THEN conjunct1] j [THEN conjunct2] b n
    by (intro conjI)
qed

subsection \<open>Products without sales\<close>

lemma recent_items_alt:
  "recent_items st now =
     filter (\<lambda>d. \<exists>ord \<in> set (filter (recent_completed now) (orders st)). orderId d = o_id ord)
       (orderdetails st)"
  unfolding recent_items_def by (rule filter_cong) auto

lemma productSales_alt:
  "productSales st now =
     map (\<lambda>k. \<lparr>ps_id = k,
            ps_totalSales = sum_list (map (\<lambda>(ord, d). quantity d)
              (filter (\<lambda>(ord, d). productId d = k)
                 (unwind_items st (filter (recent_completed now) (orders st)))))\<rparr>)
       (group_keys (\<lambda>(ord, d). productId d)
          (unwind_items st (filter (recent_completed now) (orders st))))"
  by (simp add: productSales_def group_stage_def comp_def case_prod_unfold)

lemma productSales_ids:
  "distinct (map ps_id (productSales st now))"
  "set (map ps_id (productSales st now)) = productId ` set (recent_items st now)"
proof -
  have m: "map ps_id (productSales st now) =
        group_keys (\<lambda>(ord, d). productId d)
          (unwind_items st (filter (recent_completed now) (orders st)))"
    by (simp add: productSales_alt comp_def)
  show "distinct (map ps_id (productSales st now))"
    unfolding m by (rule distinct_group_keys)
  show "set (map ps_id (productSales st now)) = productId ` set (recent_items st now)"
    unfolding m set_group_keys unwound_keys recent_items_alt ..
qed

lemma productSales_totals:
  assumes "distinct (map o_id (orders st))" "row \<in> set (productSales st now)"
  shows "ps_totalSales row =
     sum_list (map quantity (filter (\<lambda>d. productId d = ps_id row) (recent_items st now)))"
proof -
  have d: "distinct (map o_id (filter (recent_completed now) (orders st)))"
    using assms(1) by (rule distinct_map_filter)
  from assms(2) obtain k where "row = \<lparr>ps_id = k,
            ps_totalSales = sum_list (map (\<lambda>(ord, d). quantity d)
              (filter (\<lambda>(ord, d). productId d = k)
                 (unwind_items st (filter (recent_completed now) (orders st)))))\<rparr>"
    unfolding productSales_alt by auto
  then show ?thesis
    by (simp add: unwound_sum [OF d] recent_items_alt)
qed

lemma noSales_set:
  "fst ` set (noSalesProducts st now) =
     {p \<in> set (products st). p_id p \<notin> productId ` set (recent_items st now)}"
proof -
  have "fst ` set (noSalesProducts st now) =
        set (filter (\<lambda>p. p_id p \<notin> set (map ps_id (productSales st now))) (products st))"
    by (simp add: noSalesProducts_def Let_def image_image populate_brand_def)
  then show ?thesis using productSales_ids(2) [of st now] by simp
qed

text \<open>
  C3. For a store and a current time, the response of GET /analytics/products carries
  noSalesProducts and productSales such that: no product of noSalesProducts is a product
  with a line item on a completed order of the trailing thirty days; those two sets of
  products together are all products of the store; productSales has one row for each
  productId of such a line item, and (order ids being distinct) the row's totalSales is
  the sum of quantity over the line items of that productId.
\<close>
theorem no_sales_products:
  "get_analytics_products st now =
     Ok200 \<lparr>pr_lowStockProducts = lowStockProducts st,
            pr_noSalesProducts = noSalesProducts st now,
            pr_productSales = productSales st now\<rparr> \<and>
   fst ` set (noSalesProducts st now) \<inter> sold_products st now = {} \<and>
   fst ` set (noSalesProducts st now) \<union> sold_products st now = set (products st) \<and>
   distinct (map ps_id (productSales st now)) \<and>
   set (map ps_id (productSales st now)) = productId ` set (recent_items st now) \<and>
   (distinct (map o_id (orders st)) \<longrightarrow>
      (\<forall>row \<in> set (productSales st now).
         ps_totalSales row =
           sum_list (map quantity (filter (\<lambda>d. productId d = ps_id row) (recent_items st now)))))"
proof -
  have s: "sold_products st now =
        {p \<in> set (products st). p_id p \<in> productId ` set (recent_items st now)}"
    by (auto simp: sold_products_def intro: rev_image_eqI)
  have c1: "fst ` set (noSalesProducts st now) \<inter> sold_products st now = {}"
    unfolding noSales_set s by blast
  have c2: "fst ` set (noSalesProducts st now) \<union> sold_products st now = set (products st)"
    unfolding noSales_set s by blast
  have c3: "distinct (map o_id (orders st)) \<longrightarrow>
      (\<forall>row \<in> set (productSales st now).
         ps_totalSales row =
           sum_list (map quantity (filter (\<lambda>d. productId d = ps_id row) (recent_items st now))))"
    using productSales_totals by blast
  show ?thesis
    using c1 c2 c3 productSales_ids [of st now]
    by (simp add: get_analytics_products_def)
qed

lemma demo_recent:
  "\<not> recent_completed mid_february order1" "recent_completed mid_february order2"
  "\<not> recent_completed mid_february order3" "recent_completed mid_february order4"
  by (simp_all add: recent_completed_def thirtyDaysAgo_def mid_february_def
        order1_def order2_def order3_def order4_def)

lemma demo_recent_orders:
  "filter (recent_completed mid_february) (orders demo_store) = [order2, order4]"
  by (simp add: demo_store_def demo_recent)

lemma demo_recent_unwound:
  "unwind_items demo_store [order2, order4] = [(order2, item2), (order4, item4)]"
  by (simp add: unwind_items_def lookup_items_def demo_store_def demo_order_ids demo_item_fields)

lemma demo_productSales:
  "productSales demo_store mid_february = [\<lparr>ps_id = ''py'', ps_totalSales = 6\<rparr>]"
  by (simp add: productSales_def demo_recent_orders demo_recent_unwound group_stage_def demo_item_fields)

lemma demo_recent_items: "recent_items demo_store mid_february = [item2, item4]"
  by (simp add: recent_items_def demo_store_def demo_recent demo_order_ids demo_item_fields)

lemma demo_noSales:
  "map fst (noSalesProducts demo_store mid_february) =
     [demo_product ''px'' ''Lotion X'' 5, demo_product ''pz'' ''Mask Z'' 12]"
  by (simp add: noSalesProducts_def demo_productSales demo_products demo_product_id populate_brand_def)

lemma demo_order_ids_distinct: "distinct (map o_id (orders demo_store))"
  using demo_unique_ids by (simp add: unique_ids_def)

theorem no_sales_products_witness:
  "(let row = \<lparr>ps_id = ''py'', ps_totalSales = 6\<rparr>
    in distinct (map o_id (orders demo_store)) \<and>
       row \<in> set (productSales demo_store mid_february) \<and>
       recent_items demo_store mid_february = [item2, item4] \<and>
       ps_totalSales row = sum_list (map quantity (filter (\<lambda>d. productId d = ps_id row)
          (recent_items demo_store mid_february))) \<and>
       map fst (noSalesProducts demo_store mid_february) =
         [demo_product ''px'' ''Lotion X'' 5, demo_product ''pz'' ''Mask Z'' 12] \<and>
       fst ` set (noSalesProducts demo_store mid_february) \<inter> sold_products demo_store mid_february = {} \<and>
       fst ` set (noSalesProducts demo_store mid_february) \<union> sold_products demo_store mid_february =
         set (products demo_store))"
proof -
  let ?row = "\<lparr>ps_id = ''py'', ps_totalSales = 6\<rparr>"
  have mem: "?row \<in> set (productSales demo_store mid_february)"
    by (simp add: demo_productSales)
  note t = no_sales_products [of demo_store mid_february]
  note dis = t [THEN conjunct2, THEN conjunct1]
  note uni = t [THEN conjunct2, THEN conjunct2, THEN conjunct1]
  note tot = t [THEN conjunct2, THEN conjunct2, THEN conjunct2, THEN conjunct2, THEN conjunct2]
  note row = bspec [OF mp [OF tot demo_order_ids_distinct] mem]
  show ?thesis
    unfolding Let_def
    using demo_order_ids_distinct mem demo_recent_items row demo_noSales dis uni
    by (intro conjI)
qed

subsection \<open>Updating the status of a customer\<close>






end
